theory Spec2Isabelle
  imports Main "HOL-Library.Word"
begin

unbundle bit_operations_syntax

section \<open>The 6LoWPAN layer header: sys/net/sixlowpan/include/sixlowpan/lowpan.h\<close>

text \<open>
  The header gives the dispatch and flag constants of the wire format, the two data
  types of the interface and the prototypes of the public operations. Bytes are
  \<open>uint8_t\<close>, lengths and tags \<open>uint16_t\<close>.
\<close>

type_synonym uint8_t = "8 word"
type_synonym uint16_t = "16 word"

subsection \<open>Dispatch values and flag bits (lowpan.h, lines 35 to 153)\<close>

definition SIXLOWPAN_IPV6_DISPATCH :: uint8_t where
  "SIXLOWPAN_IPV6_DISPATCH = 0x41"

definition SIXLOWPAN_IPHC1_DISPATCH :: uint8_t where
  "SIXLOWPAN_IPHC1_DISPATCH = 0x60"

definition SIXLOWPAN_IPHC1_FL_C :: uint8_t where
  "SIXLOWPAN_IPHC1_FL_C = 0x10"

definition SIXLOWPAN_IPHC1_TC_C :: uint8_t where
  "SIXLOWPAN_IPHC1_TC_C = 0x08"

definition SIXLOWPAN_IPHC1_NH :: uint8_t where
  "SIXLOWPAN_IPHC1_NH = 0x04"

definition SIXLOWPAN_IPHC2_CID :: uint8_t where
  "SIXLOWPAN_IPHC2_CID = 0x80"

definition SIXLOWPAN_IPHC2_SAC :: uint8_t where
  "SIXLOWPAN_IPHC2_SAC = 0x40"

definition SIXLOWPAN_IPHC2_SAM :: uint8_t where
  "SIXLOWPAN_IPHC2_SAM = 0x30"

definition SIXLOWPAN_IPHC2_DAC :: uint8_t where
  "SIXLOWPAN_IPHC2_DAC = 0x04"

definition SIXLOWPAN_IPHC2_DAM :: uint8_t where
  "SIXLOWPAN_IPHC2_DAM = 0x03"

definition SIXLOWPAN_IPHC2_M :: uint8_t where
  "SIXLOWPAN_IPHC2_M = 0x08"

definition SIXLOWPAN_FRAG1_DISPATCH :: uint8_t where
  "SIXLOWPAN_FRAG1_DISPATCH = 0xc0"

definition SIXLOWPAN_FRAGN_DISPATCH :: uint8_t where
  "SIXLOWPAN_FRAGN_DISPATCH = 0xe0"

definition SIXLOWPAN_FRAG1_HDR_LEN :: nat where
  "SIXLOWPAN_FRAG1_HDR_LEN = 4"

definition SIXLOWPAN_FRAGN_HDR_LEN :: nat where
  "SIXLOWPAN_FRAGN_HDR_LEN = 5"

text \<open>
  A flag of the header is one bit of its byte; a mode field (\<open>SAM\<close>, \<open>DAM\<close>) is two
  adjacent bits. \<open>field_at k w m\<close> says that the mask \<open>m\<close> is the \<open>w\<close> bits starting
  at bit \<open>k\<close>.
\<close>

definition field_at :: "nat \<Rightarrow> nat \<Rightarrow> uint8_t \<Rightarrow> bool" where
  "field_at k w m = (m = push_bit k (mask w))"

text \<open>
  The dispatch pattern of a byte is its three leading bits: the bytes \<open>b\<close> with
  \<open>dispatch_class b = d\<close> are the 32 values from \<open>d\<close> on.
\<close>

definition dispatch_class :: "uint8_t \<Rightarrow> uint8_t" where
  "dispatch_class b = b AND 0xE0"

subsection \<open>Data types of the interface (lowpan.h, lines 159 to 171)\<close>

datatype sixlowpan_lowpan_iphc_status_t = LOWPAN_IPHC_DISABLE | LOWPAN_IPHC_ENABLE

text \<open>
  \<open>sixlowpan_lowpan_frame_t\<close>: a \<open>uint8_t length\<close> and a pointer \<open>uint8_t *data\<close> to the
  byte stream (the fields \<open>length_f\<close> and \<open>data_f\<close> here). The model holds the bytes the
  pointer refers to.
\<close>

record sixlowpan_lowpan_frame_t =
  length_f :: uint8_t
  data_f :: "uint8_t list"

text \<open>
  A frame struct describes its byte stream when the length field is the number of
  bytes; \<open>frame_of\<close> fills the struct for a byte stream, the length stored as C stores any
  unsigned value into a \<open>uint8_t\<close> member (reduced modulo 256).
\<close>

definition frame_wf :: "sixlowpan_lowpan_frame_t \<Rightarrow> bool" where
  "frame_wf f = (unat (length_f f) = length (data_f f))"

definition frame_of :: "uint8_t list \<Rightarrow> sixlowpan_lowpan_frame_t" where
  "frame_of bs = \<lparr>length_f = of_nat (length bs), data_f = bs\<rparr>"

subsection \<open>Prototypes (lowpan.h, lines 182 to 225)\<close>

text \<open>
  The types of \<open>transceiver.h\<close> and \<open>sixlowpan/types.h\<close> are not part of this header:
  \<open>transceiver_type_t\<close> stays a type parameter, \<open>ipv6_addr_t\<close> is a 128-bit and
  \<open>ieee_802154_long_t\<close> a 64-bit value.
\<close>

type_synonym ipv6_addr_t = "128 word"
type_synonym ieee_802154_long_t = "64 word"

text \<open>
  A call passes each argument by value, converted to the type of its parameter as if
  by assignment. For \<open>uint8_t r_addr\<close> the conversion of an integer value of any wider
  type is \<open>to_uint8_t\<close>; for \<open>int as_border\<close> it is \<open>to_int\<close>, an \<open>int\<close> of 32 bits in two's
  complement that keeps the low 32 bits of a wider value (\<open>sint\<close> reads it). The records
  are the parameter values that the bodies of \<open>sixlowpan_lowpan_init\<close> and
  \<open>sixlowpan_lowpan_adhoc_init\<close> receive.
\<close>

type_synonym c_int = "32 word"

definition to_uint8_t :: "int \<Rightarrow> uint8_t" where
  "to_uint8_t v = word_of_int v"

definition to_int :: "int \<Rightarrow> c_int" where
  "to_int v = word_of_int v"

record 't lowpan_init_params =
  trans :: 't
  r_addr :: uint8_t
  as_border :: c_int

record 't lowpan_adhoc_init_params =
  adhoc_trans :: 't
  adhoc_prefix :: ipv6_addr_t
  adhoc_r_addr :: uint8_t

definition sixlowpan_lowpan_init :: "'t \<Rightarrow> int \<Rightarrow> int \<Rightarrow> 't lowpan_init_params" where
  "sixlowpan_lowpan_init t a b = \<lparr>trans = t, r_addr = to_uint8_t a, as_border = to_int b\<rparr>"

definition sixlowpan_lowpan_adhoc_init ::
  "'t \<Rightarrow> ipv6_addr_t \<Rightarrow> int \<Rightarrow> 't lowpan_adhoc_init_params" where
  "sixlowpan_lowpan_adhoc_init t p a =
     \<lparr>adhoc_trans = t, adhoc_prefix = p, adhoc_r_addr = to_uint8_t a\<rparr>"

section \<open>The send path\<close>

text \<open>
  Modelled from the spec: the body of \<open>sixlowpan_lowpan_sendto\<close> and the fragmenter it
  calls (lowpan.c) are not among the sources; only the prototype is. The definitions of
  this section follow sections 4.5, 5, 6 and 7 of the specification. The link MTU, the
  IPHC compressor and the transceiver are parameters. The failures of a send are those
  of section 7, (c) and (d).
\<close>

datatype send_error = OversizedDatagram | TransceiverFailure

datatype send_result = Success | Failure send_error

text \<open>
  Modelled from the spec: the size limit of the absent fragmenter (section 4.5). The
  datagram size field has 11 bits, three in the dispatch byte and eight in the next, so
  the largest datagram has 2047 bytes.
\<close>

definition DATAGRAM_SIZE_BITS :: nat where
  "DATAGRAM_SIZE_BITS = 11"

definition MAX_DATAGRAM_SIZE :: nat where
  "MAX_DATAGRAM_SIZE = 2 ^ DATAGRAM_SIZE_BITS - 1"

text \<open>
  Modelled from the spec: the offset field that the absent fragmenter writes and the
  absent receive path reads (sections 3 and 4.5). The offset byte of a subsequent
  fragment counts units of eight bytes.
\<close>

definition FRAG_OFFSET_UNIT :: nat where
  "FRAG_OFFSET_UNIT = 8"

definition frag_offset_field :: "nat \<Rightarrow> uint8_t" where
  "frag_offset_field off = of_nat (off div FRAG_OFFSET_UNIT)"

definition frag_offset_bytes :: "uint8_t \<Rightarrow> nat" where
  "frag_offset_bytes b = FRAG_OFFSET_UNIT * unat b"

text \<open>
  Modelled from the spec: the fragment headers that the absent fragmenter emits
  (sections 3 and 4.5). First fragment header: the dispatch with the high bits of the
  datagram size, the low byte of the size, the two bytes of the tag (the high byte
  first). A subsequent fragment adds the offset byte.
\<close>

definition frag1_hdr :: "nat \<Rightarrow> uint16_t \<Rightarrow> uint8_t list" where
  "frag1_hdr sz tg =
     [SIXLOWPAN_FRAG1_DISPATCH OR of_nat (sz div 256), of_nat (sz mod 256),
      ucast (drop_bit 8 tg), ucast tg]"

definition fragn_hdr :: "nat \<Rightarrow> uint16_t \<Rightarrow> nat \<Rightarrow> uint8_t list" where
  "fragn_hdr sz tg off =
     [SIXLOWPAN_FRAGN_DISPATCH OR of_nat (sz div 256), of_nat (sz mod 256),
      ucast (drop_bit 8 tg), ucast tg, frag_offset_field off]"

text \<open>
  Modelled from the spec: the slices of the absent fragmenter (section 4.5). The payload
  of every fragment but the last is a multiple of eight bytes: the largest one that fits
  in the MTU after a header of \<open>hdr\<close> bytes.
\<close>

definition slice_len :: "nat \<Rightarrow> nat \<Rightarrow> nat" where
  "slice_len mtu hdr = 8 * ((mtu - hdr) div 8)"

text \<open>
  Modelled from the spec: the loop of the absent fragmenter over the subsequent
  fragments (section 4.5), for the bytes \<open>rest\<close>, which start at offset \<open>off\<close> of the
  datagram. The specification is silent about an MTU so small that no eight bytes fit
  after the header; the loop of the model then ends with one frame for all the rest.
\<close>

function frag_rest :: "nat \<Rightarrow> nat \<Rightarrow> uint16_t \<Rightarrow> nat \<Rightarrow> uint8_t list \<Rightarrow> uint8_t list list" where
  "frag_rest mtu sz tg off rest =
     (if rest = [] then []
      else if 0 < slice_len mtu SIXLOWPAN_FRAGN_HDR_LEN
              \<and> slice_len mtu SIXLOWPAN_FRAGN_HDR_LEN < length rest
      then (fragn_hdr sz tg off @ take (slice_len mtu SIXLOWPAN_FRAGN_HDR_LEN) rest)
           # frag_rest mtu sz tg (off + slice_len mtu SIXLOWPAN_FRAGN_HDR_LEN)
               (drop (slice_len mtu SIXLOWPAN_FRAGN_HDR_LEN) rest)
      else [fragn_hdr sz tg off @ rest])"
  by pat_completeness auto
termination
  by (relation "measure (\<lambda>(mtu, sz, tg, off, rest). length rest)") auto

text \<open>
  Modelled from the spec: the absent fragmenter (section 4.5). An oversized datagram is
  rejected before anything is produced; a datagram that fits in one frame goes out as
  it is; any other as a first fragment and its subsequent fragments.
\<close>

definition fragment :: "nat \<Rightarrow> uint16_t \<Rightarrow> uint8_t list \<Rightarrow> send_error + uint8_t list list" where
  "fragment mtu tg dgram =
     (if MAX_DATAGRAM_SIZE < length dgram then Inl OversizedDatagram
      else if length dgram \<le> mtu then Inr [dgram]
      else Inr ((frag1_hdr (length dgram) tg
                   @ take (slice_len mtu SIXLOWPAN_FRAG1_HDR_LEN) dgram)
                # frag_rest mtu (length dgram) tg (slice_len mtu SIXLOWPAN_FRAG1_HDR_LEN)
                    (drop (slice_len mtu SIXLOWPAN_FRAG1_HDR_LEN) dgram)))"

text \<open>
  Modelled from the spec: the emission of the absent send path (section 5). Frames go
  to the transceiver in order; the first one it refuses ends the emission. The result
  lists the frames handed over, the refused one last.
\<close>

fun transmit :: "(uint8_t list \<Rightarrow> bool) \<Rightarrow> uint8_t list list \<Rightarrow> uint8_t list list \<times> send_result" where
  "transmit xmit [] = ([], Success)"
| "transmit xmit (f # fs) =
     (if xmit f then (case transmit xmit fs of (handed, r) \<Rightarrow> (f # handed, r))
      else ([f], Failure TransceiverFailure))"

text \<open>
  Modelled from the spec: the state that the absent send path keeps (sections 4.5 and
  6): the header compression switch, which \<open>sixlowpan_lowpan_set_iphc_status\<close> sets, and
  the 16-bit datagram tag counter, which wraps. With compression off the datagram is
  the packet behind the dispatch of uncompressed IPv6; with it on, what the compressor
  (a parameter) makes of the packet.
\<close>

record lowpan_state =
  iphc_status :: sixlowpan_lowpan_iphc_status_t
  tag :: uint16_t

definition sixlowpan_lowpan_set_iphc_status ::
  "sixlowpan_lowpan_iphc_status_t \<Rightarrow> lowpan_state \<Rightarrow> lowpan_state" where
  "sixlowpan_lowpan_set_iphc_status status st = st\<lparr>iphc_status := status\<rparr>"

definition lowpan_encapsulate ::
  "(uint8_t list \<Rightarrow> uint8_t list) \<Rightarrow> lowpan_state \<Rightarrow> uint8_t list \<Rightarrow> uint8_t list" where
  "lowpan_encapsulate iphc st payload =
     (case iphc_status st of
        LOWPAN_IPHC_DISABLE \<Rightarrow> SIXLOWPAN_IPV6_DISPATCH # payload
      | LOWPAN_IPHC_ENABLE \<Rightarrow> iphc payload)"

text \<open>
  Modelled from the spec: the absent body of the send operation (sections 5 and 6):
  compress, fragment if needed, transmit. The outcome is what occurred; with it come
  the frames handed to the transceiver and the new state. A tag is taken from the
  counter only for a datagram that is fragmented.
\<close>

definition lowpan_send ::
  "nat \<Rightarrow> (uint8_t list \<Rightarrow> uint8_t list) \<Rightarrow> (ieee_802154_long_t \<Rightarrow> uint8_t list \<Rightarrow> bool)
     \<Rightarrow> lowpan_state \<Rightarrow> ieee_802154_long_t \<Rightarrow> uint8_t list \<Rightarrow> uint16_t
     \<Rightarrow> send_result \<times> uint8_t list list \<times> lowpan_state" where
  "lowpan_send mtu iphc xmit st dest dat data_len =
     (let dgram = lowpan_encapsulate iphc st (take (unat data_len) dat) in
      case fragment mtu (tag st) dgram of
        Inl e \<Rightarrow> (Failure e, [], st)
      | Inr frames \<Rightarrow>
          (case transmit (xmit dest) frames of
             (handed, r) \<Rightarrow>
               (r, handed, if length dgram \<le> mtu then st else st\<lparr>tag := tag st + 1\<rparr>)))"

text \<open>
  The prototype of lowpan.h, line 204: \<open>void sixlowpan_lowpan_sendto(const
  ieee_802154_long_t *dest, uint8_t *data, uint16_t data_len)\<close>. The body is not among
  the sources and is a parameter here: run on the three arguments, it ends in an outcome
  and has effects (the frames handed to the transceiver, the new state). The function
  returns nothing: what the caller gets back is the one value of type \<open>unit\<close>, and the
  outcome is not part of it.
\<close>

definition sixlowpan_lowpan_sendto ::
  "(ieee_802154_long_t \<Rightarrow> uint8_t list \<Rightarrow> uint16_t \<Rightarrow> send_result \<times> 'e)
     \<Rightarrow> ieee_802154_long_t \<Rightarrow> uint8_t list \<Rightarrow> uint16_t \<Rightarrow> unit \<times> 'e" where
  "sixlowpan_lowpan_sendto body dest dat data_len = ((), snd (body dest dat data_len))"

section \<open>Reassembly\<close>

text \<open>
  Modelled from the spec: the reassembly buffers and the receive path (lowpan.c) are not
  among the sources. The definitions of this section follow the Reassembly Buffer of
  section 3 and the Reassembly Manager of section 4.6 of the specification: a fixed pool
  of slots, each \<open>empty\<close> or \<open>filling\<close>; a slot that completes hands its datagram over
  and is free again, as is a slot that is evicted.
\<close>

text \<open>
  Modelled from the spec: the absent reassembly buffer (section 3). One buffer: the key
  (source, tag), the total datagram size, the bytes received so far (of the two
  representations that the specification allows, the bitmap of byte offsets), the
  payload storage sized to the largest datagram, and the times of creation and of the
  last update (the eviction policy of section 4.6 is least-recently-updated). A new
  buffer has nothing received; a write puts bytes at an offset of the storage and marks
  their offsets.
\<close>

record reassembly_buffer =
  rb_source :: ieee_802154_long_t
  rb_tag :: uint16_t
  rb_size :: nat
  rb_received :: "bool list"
  rb_payload :: "uint8_t list"
  rb_created :: nat
  rb_updated :: nat

datatype slot = Empty | Filling reassembly_buffer

datatype write_result = Stored | Completed "uint8_t list" | Corrupt

definition new_buffer :: "nat \<Rightarrow> ieee_802154_long_t \<Rightarrow> uint16_t \<Rightarrow> nat \<Rightarrow> reassembly_buffer" where
  "new_buffer now src tg sz =
     \<lparr>rb_source = src, rb_tag = tg, rb_size = sz, rb_received = replicate sz False,
      rb_payload = replicate MAX_DATAGRAM_SIZE 0, rb_created = now, rb_updated = now\<rparr>"

definition mark_received :: "nat \<Rightarrow> nat \<Rightarrow> bool list \<Rightarrow> bool list" where
  "mark_received off n bm = take off bm @ replicate n True @ drop (off + n) bm"

definition write_bytes :: "nat \<Rightarrow> uint8_t list \<Rightarrow> uint8_t list \<Rightarrow> uint8_t list" where
  "write_bytes off bs store = take off store @ bs @ drop (off + length bs) store"

text \<open>
  Modelled from the spec: the completion condition of the absent reassembly buffer
  (section 3). The bytes counted toward completion are the offsets marked in the
  bitmap; a buffer is complete when every offset below the total size is marked.
\<close>

definition received_count :: "reassembly_buffer \<Rightarrow> nat" where
  "received_count buf = length (filter (\<lambda>b. b) (rb_received buf))"

definition rb_complete :: "reassembly_buffer \<Rightarrow> bool" where
  "rb_complete buf = (received_count buf = rb_size buf)"

text \<open>
  Modelled from the spec: an already-received byte range of the absent reassembly
  buffer (section 4.6). The range of \<open>n\<close> bytes at offset \<open>off\<close> lies in the datagram and
  is all received.
\<close>

definition range_received :: "reassembly_buffer \<Rightarrow> nat \<Rightarrow> nat \<Rightarrow> bool" where
  "range_received buf off n =
     (off + n \<le> rb_size buf \<and> take n (drop off (rb_received buf)) = replicate n True)"

text \<open>
  Modelled from the spec: the state \<open>filling\<close> of the absent slot (sections 3 and 4.6).
  A filling slot holds a bitmap of one bit for each byte of the datagram, storage that
  has room for the datagram, and not yet every byte: a slot that has them all is
  complete, and freed at once.
\<close>

definition filling_wf :: "reassembly_buffer \<Rightarrow> bool" where
  "filling_wf buf =
     (length (rb_received buf) = rb_size buf \<and> rb_size buf \<le> length (rb_payload buf)
      \<and> \<not> rb_complete buf)"

text \<open>
  Modelled from the spec: the absent handling of a fragment for a filling slot (section
  4.6). A payload that would pass the total size fails the slot; otherwise the bytes
  are written at the offset and marked, and the slot completes (datagram handed over,
  slot freed) the instant every byte is there.
\<close>

definition slot_write :: "nat \<Rightarrow> reassembly_buffer \<Rightarrow> nat \<Rightarrow> uint8_t list \<Rightarrow> slot \<times> write_result" where
  "slot_write now buf off bs =
     (if rb_size buf < off + length bs then (Empty, Corrupt)
      else if rb_complete
                (buf\<lparr>rb_received := mark_received off (length bs) (rb_received buf),
                     rb_payload := write_bytes off bs (rb_payload buf),
                     rb_updated := now\<rparr>)
      then (Empty, Completed (take (rb_size buf) (write_bytes off bs (rb_payload buf))))
      else (Filling
              (buf\<lparr>rb_received := mark_received off (length bs) (rb_received buf),
                   rb_payload := write_bytes off bs (rb_payload buf),
                   rb_updated := now\<rparr>),
            Stored))"

text \<open>
  Modelled from the spec: the input and the state of the absent Reassembly Manager
  (sections 3 and 4.6). A received fragment, its header decoded, has the offset in
  bytes, 0 for a first fragment. The pool is a fixed array of slots, all empty at
  initialisation, and the count of the evictions made for want of a free slot.
\<close>

record fragment_rx =
  fr_source :: ieee_802154_long_t
  fr_tag :: uint16_t
  fr_size :: nat
  fr_first :: bool
  fr_offset :: nat
  fr_payload :: "uint8_t list"

record reassembly_pool =
  slots :: "slot list"
  evictions :: nat

definition pool_init :: "nat \<Rightarrow> reassembly_pool" where
  "pool_init n = \<lparr>slots = replicate n Empty, evictions = 0\<rparr>"

fun slot_matches :: "ieee_802154_long_t \<Rightarrow> uint16_t \<Rightarrow> slot \<Rightarrow> bool" where
  "slot_matches src tg Empty = False"
| "slot_matches src tg (Filling b) = (rb_source b = src \<and> rb_tag b = tg)"

fun is_empty :: "slot \<Rightarrow> bool" where
  "is_empty Empty = True"
| "is_empty (Filling b) = False"

fun find_index :: "('a \<Rightarrow> bool) \<Rightarrow> 'a list \<Rightarrow> nat option" where
  "find_index P [] = None"
| "find_index P (x # xs) = (if P x then Some 0 else map_option Suc (find_index P xs))"

text \<open>
  Modelled from the spec: the choice of the slot to evict in the absent Reassembly
  Manager (section 4.6). The least-recently-updated filling slot: its index and the time
  of its last update; of two slots updated at the same time, the one of lower index.
\<close>

fun lru_index :: "slot list \<Rightarrow> (nat \<times> nat) option" where
  "lru_index [] = None"
| "lru_index (Empty # ss) = map_option (\<lambda>(i, t). (Suc i, t)) (lru_index ss)"
| "lru_index (Filling b # ss) =
     (case lru_index ss of
        None \<Rightarrow> Some (0, rb_updated b)
      | Some (i, t) \<Rightarrow> if rb_updated b \<le> t then Some (0, rb_updated b) else Some (Suc i, t))"

text \<open>
  Modelled from the spec: the start of a reassembly in the absent Reassembly Manager
  (section 4.6). The slot records the key and the total size, and the payload of the
  first fragment \<open>fr\<close> is written at offset 0 at time \<open>now\<close>.
\<close>

definition start_slot :: "nat \<Rightarrow> fragment_rx \<Rightarrow> slot \<times> write_result" where
  "start_slot now fr =
     slot_write now (new_buffer now (fr_source fr) (fr_tag fr) (fr_size fr)) 0 (fr_payload fr)"

definition put_slot :: "nat \<Rightarrow> slot \<times> write_result \<Rightarrow> reassembly_pool
     \<Rightarrow> reassembly_pool \<times> write_result option" where
  "put_slot i sr pool = (pool\<lparr>slots := (slots pool)[i := fst sr]\<rparr>, Some (snd sr))"

text \<open>
  Modelled from the spec: the absent Reassembly Manager at one received fragment
  (sections 4.6 and 7). A fragment whose key matches a filling slot is written into it.
  A first fragment of an unseen key takes a free slot; with none free the
  least-recently-updated filling slot is evicted, and counted, to make room. A first
  fragment whose payload is longer than the datagram size it declares is malformed:
  only that frame is dropped, before any slot is taken or evicted for it. A first
  fragment that carries its whole datagram takes a slot as any other does, completes
  it at once and frees it. A subsequent
  fragment of an unseen key has no reassembly to join: the specification gives it no
  slot, and the model leaves the pool as it is.
\<close>

definition pool_rx :: "nat \<Rightarrow> fragment_rx \<Rightarrow> reassembly_pool
     \<Rightarrow> reassembly_pool \<times> write_result option" where
  "pool_rx now fr pool =
     (case find_index (slot_matches (fr_source fr) (fr_tag fr)) (slots pool) of
        Some i \<Rightarrow>
          (case slots pool ! i of
             Filling b \<Rightarrow> put_slot i (slot_write now b (fr_offset fr) (fr_payload fr)) pool
           | Empty \<Rightarrow> (pool, None))
      | None \<Rightarrow>
          if \<not> fr_first fr \<or> fr_size fr < length (fr_payload fr) then (pool, None)
          else
            (case find_index is_empty (slots pool) of
               Some i \<Rightarrow> put_slot i (start_slot now fr) pool
             | None \<Rightarrow>
                 (case lru_index (slots pool) of
                    Some (i, t) \<Rightarrow>
                      put_slot i (start_slot now fr) (pool\<lparr>evictions := evictions pool + 1\<rparr>)
                  | None \<Rightarrow> (pool, None))))"

text \<open>
  Modelled from the spec: the absent Reassembly Manager over a sequence of arrivals,
  each with its time, in order (section 5: one receive path at a time).
\<close>

fun pool_run :: "(nat \<times> fragment_rx) list \<Rightarrow> reassembly_pool \<Rightarrow> reassembly_pool" where
  "pool_run [] pool = pool"
| "pool_run ((now, fr) # rest) pool = pool_run rest (fst (pool_rx now fr pool))"

text \<open>
  Modelled from the spec: the words of section 8 on the absent slot pool. A first
  fragment starts a reassembly when it leaves its datagram in progress: it carries
  fewer bytes than the datagram has. The reassemblies in progress in a pool are its
  filling slots.
\<close>

definition starts_reassembly :: "fragment_rx \<Rightarrow> bool" where
  "starts_reassembly fr =
     (fr_first fr \<and> fr_offset fr = 0 \<and> length (fr_payload fr) < fr_size fr
      \<and> fr_size fr \<le> MAX_DATAGRAM_SIZE)"

definition filling_count :: "slot list \<Rightarrow> nat" where
  "filling_count ss = length (filter (\<lambda>s. \<not> is_empty s) ss)"

text \<open>
  Modelled from the spec: the invariant of the absent slot pool (section 3). Every
  filling slot of the pool holds a buffer as a filling slot has it.
\<close>

fun slot_wf :: "slot \<Rightarrow> bool" where
  "slot_wf Empty = True"
| "slot_wf (Filling b) = filling_wf b"

definition pool_wf :: "reassembly_pool \<Rightarrow> bool" where
  "pool_wf pool = list_all slot_wf (slots pool)"

section \<open>The wire format\<close>

text \<open>A property of every byte holds when it holds of the 256 values a byte takes.\<close>

lemma uint8_exhaust:
  assumes "list_all (\<lambda>n. P (of_nat n :: uint8_t)) [0..<256]"
  shows "P b"
proof -
  have "unat b \<in> {0..<256}"
    using unsigned_less [of b, where ?'a = nat] by simp
  moreover from assms have "\<forall>n\<in>{0..<256}. P (of_nat n :: uint8_t)"
    by (simp add: list_all_iff)
  ultimately have "P (of_nat (unat b))"
    by blast
  then show ?thesis by simp
qed

lemma iphc_dispatch_range:
  "(dispatch_class b = SIXLOWPAN_IPHC1_DISPATCH) = (0x60 \<le> b \<and> b \<le> 0x7F)"
  unfolding dispatch_class_def SIXLOWPAN_IPHC1_DISPATCH_def
  by (rule uint8_exhaust [of _ b]) code_simp

lemma frag1_dispatch_range:
  "(dispatch_class b = SIXLOWPAN_FRAG1_DISPATCH) = (0xC0 \<le> b \<and> b \<le> 0xDF)"
  unfolding dispatch_class_def SIXLOWPAN_FRAG1_DISPATCH_def
  by (rule uint8_exhaust [of _ b]) code_simp

lemma fragn_dispatch_range:
  "(dispatch_class b = SIXLOWPAN_FRAGN_DISPATCH) = (0xE0 \<le> b \<and> b \<le> 0xFF)"
  unfolding dispatch_class_def SIXLOWPAN_FRAGN_DISPATCH_def
  by (rule uint8_exhaust [of _ b]) code_simp

lemma iphc1_flag_bits:
  "field_at 4 1 SIXLOWPAN_IPHC1_FL_C \<and> field_at 3 1 SIXLOWPAN_IPHC1_TC_C
   \<and> field_at 2 1 SIXLOWPAN_IPHC1_NH"
  by (simp add: field_at_def SIXLOWPAN_IPHC1_FL_C_def SIXLOWPAN_IPHC1_TC_C_def
      SIXLOWPAN_IPHC1_NH_def mask_numeral)

lemma iphc2_flag_bits:
  "field_at 7 1 SIXLOWPAN_IPHC2_CID \<and> field_at 6 1 SIXLOWPAN_IPHC2_SAC
   \<and> field_at 4 2 SIXLOWPAN_IPHC2_SAM \<and> field_at 3 1 SIXLOWPAN_IPHC2_M
   \<and> field_at 2 1 SIXLOWPAN_IPHC2_DAC \<and> field_at 0 2 SIXLOWPAN_IPHC2_DAM"
  by (simp add: field_at_def SIXLOWPAN_IPHC2_CID_def SIXLOWPAN_IPHC2_SAC_def
      SIXLOWPAN_IPHC2_SAM_def SIXLOWPAN_IPHC2_M_def SIXLOWPAN_IPHC2_DAC_def
      SIXLOWPAN_IPHC2_DAM_def mask_numeral)

lemma frag_header_lengths:
  "length (frag1_hdr sz tg) = SIXLOWPAN_FRAG1_HDR_LEN
   \<and> length (fragn_hdr sz tg off) = SIXLOWPAN_FRAGN_HDR_LEN"
  by (simp add: frag1_hdr_def fragn_hdr_def SIXLOWPAN_FRAG1_HDR_LEN_def
      SIXLOWPAN_FRAGN_HDR_LEN_def)

text \<open>
  Claim C3. The dispatch encodings of the wire format: \<open>0x41\<close> for uncompressed IPv6;
  the bytes \<open>0x60\<close> to \<open>0x7F\<close> for IPHC, which are the bytes with the three leading
  bits of the IPHC dispatch, the flags Flow-Label-elided, Traffic-Class-elided and
  Next-Header-compressed being bits 4, 3 and 2 of the first byte, and the second byte
  being made of CID (bit 7), SAC (bit 6), the two bits of SAM (5 and 4), M (bit 3), DAC
  (bit 2) and the two bits of DAM (1 and 0); the bytes \<open>0xC0\<close> to \<open>0xDF\<close> for a first
  fragment, with a header of 4 bytes; the bytes \<open>0xE0\<close> to \<open>0xFF\<close> for a subsequent
  fragment, with a header of 5 bytes, one more than the first for the offset byte,
  which counts units of 8 bytes.
\<close>

theorem dispatch_wire_format:
  "SIXLOWPAN_IPV6_DISPATCH = 0x41
   \<and> (\<forall>b. (dispatch_class b = SIXLOWPAN_IPHC1_DISPATCH) = (0x60 \<le> b \<and> b \<le> 0x7F))
   \<and> field_at 4 1 SIXLOWPAN_IPHC1_FL_C
   \<and> field_at 3 1 SIXLOWPAN_IPHC1_TC_C
   \<and> field_at 2 1 SIXLOWPAN_IPHC1_NH
   \<and> field_at 7 1 SIXLOWPAN_IPHC2_CID
   \<and> field_at 6 1 SIXLOWPAN_IPHC2_SAC
   \<and> field_at 4 2 SIXLOWPAN_IPHC2_SAM
   \<and> field_at 3 1 SIXLOWPAN_IPHC2_M
   \<and> field_at 2 1 SIXLOWPAN_IPHC2_DAC
   \<and> field_at 0 2 SIXLOWPAN_IPHC2_DAM
   \<and> (\<forall>b. (dispatch_class b = SIXLOWPAN_FRAG1_DISPATCH) = (0xC0 \<le> b \<and> b \<le> 0xDF))
   \<and> SIXLOWPAN_FRAG1_HDR_LEN = 4
   \<and> (\<forall>b. (dispatch_class b = SIXLOWPAN_FRAGN_DISPATCH) = (0xE0 \<le> b \<and> b \<le> 0xFF))
   \<and> SIXLOWPAN_FRAGN_HDR_LEN = 5
   \<and> SIXLOWPAN_FRAGN_HDR_LEN = SIXLOWPAN_FRAG1_HDR_LEN + 1
   \<and> (\<forall>b. frag_offset_bytes b = 8 * unat b)"
  using iphc_dispatch_range frag1_dispatch_range fragn_dispatch_range
    iphc1_flag_bits iphc2_flag_bits
  by (simp add: SIXLOWPAN_IPV6_DISPATCH_def SIXLOWPAN_FRAG1_HDR_LEN_def
      SIXLOWPAN_FRAGN_HDR_LEN_def frag_offset_bytes_def FRAG_OFFSET_UNIT_def)

section \<open>The interface\<close>

text \<open>
  Claim C10. The PHY-layer address that \<open>sixlowpan_lowpan_init\<close> and
  \<open>sixlowpan_lowpan_adhoc_init\<close> take is a \<open>uint8_t\<close>: whatever integer value the caller
  supplies, the functions receive that value modulo \<open>2^8\<close>, and every address they
  can receive lies between 0 and 255.
\<close>

theorem init_r_addr_is_uint8:
  "uint (r_addr (sixlowpan_lowpan_init t a b)) = a mod 2 ^ 8
   \<and> uint (adhoc_r_addr (sixlowpan_lowpan_adhoc_init t p a)) = a mod 2 ^ 8
   \<and> 0 \<le> uint (r_addr ps) \<and> uint (r_addr ps) \<le> 255
   \<and> 0 \<le> uint (adhoc_r_addr qs) \<and> uint (adhoc_r_addr qs) \<le> 255"
proof -
  have "uint x \<le> 255" for x :: uint8_t
    using uint_bounded [of x] by simp
  then show ?thesis
    by (simp add: sixlowpan_lowpan_init_def sixlowpan_lowpan_adhoc_init_def to_uint8_t_def
        uint_word_of_int take_bit_eq_mod)
qed

lemma unat_uint8_of_nat: "unat (of_nat n :: uint8_t) = n mod 256"
  by (simp add: unat_of_nat)

lemma unat_uint8_less: "unat (x :: uint8_t) < 256"
  using unsigned_less [of x, where ?'a = nat] by simp

lemma max_datagram_size: "MAX_DATAGRAM_SIZE = 2047"
  by (simp add: MAX_DATAGRAM_SIZE_def DATAGRAM_SIZE_BITS_def)

text \<open>
  Claim C5, as amended. The length field of \<open>sixlowpan_lowpan_frame_t\<close> has 8 bits: it
  holds a length of at most 255, and the struct filled for a byte sequence has the
  sequence's length in its length field exactly when the sequence has at most 255
  bytes.
\<close>

theorem frame_length_field_is_8_bit:
  "unat (length_f f) \<le> 255
   \<and> frame_wf (frame_of bs) = (length bs \<le> 255)
   \<and> data_f (frame_of bs) = bs"
proof -
  have "unat (length_f f) \<le> 255"
    using unat_uint8_less [of "length_f f"] by simp
  moreover have "(length bs mod 256 = length bs) = (length bs \<le> 255)"
    by (auto simp: mod_less_eq_dividend dest: mod_less_divisor)
  ultimately show ?thesis
    by (simp add: frame_wf_def frame_of_def unat_uint8_of_nat)
qed

text \<open>
  The claim as stated fails: no frame struct describes a datagram of 2047 bytes, the
  largest that the 11-bit size field allows; the struct filled for it says 255.
\<close>

theorem frame_length_cannot_hold_max_datagram:
  "\<not> (\<exists>f. data_f f = replicate 2047 0 \<and> frame_wf f)
   \<and> unat (length_f (frame_of (replicate 2047 0))) = 255
   \<and> MAX_DATAGRAM_SIZE = 2047"
proof -
  have "\<not> (\<exists>f. data_f f = replicate 2047 0 \<and> frame_wf f)"
  proof
    assume "\<exists>f. data_f f = replicate 2047 0 \<and> frame_wf f"
    then obtain f where "data_f f = replicate 2047 0" and "frame_wf f"
      by blast
    then have "unat (length_f f) = 2047"
      by (simp add: frame_wf_def)
    with unat_uint8_less [of "length_f f"] show False
      by simp
  qed
  then show ?thesis
    by (simp add: frame_of_def unat_uint8_of_nat max_datagram_size)
qed

text \<open>
  Claim C4, as amended. \<open>sixlowpan_lowpan_sendto\<close> returns nothing: whatever its body
  does, the value that the caller gets back is the same for any two invocations, so no
  indication of success or failure comes with it; the effects of the call are those of
  the body.
\<close>

theorem sendto_returns_no_indication:
  "fst (sixlowpan_lowpan_sendto body dest dat n)
     = fst (sixlowpan_lowpan_sendto body' dest' dat' n')
   \<and> snd (sixlowpan_lowpan_sendto body dest dat n) = snd (body dest dat n)"
  by (simp add: sixlowpan_lowpan_sendto_def)

text \<open>
  The claim as stated fails. With the send path of the specification as the body, on a
  link of MTU 127 with header compression off, sending 3 bytes succeeds and sending
  3000 bytes is rejected as oversized, and the caller gets the same value back from
  both; with a transceiver that refuses the frame, the send of the 3 bytes fails.
\<close>

theorem sendto_outcome_not_returned:
  "fst (sixlowpan_lowpan_sendto
          (lowpan_send 127 id (\<lambda>d f. True) \<lparr>iphc_status = LOWPAN_IPHC_DISABLE, tag = 0\<rparr>)
          0 [1, 2, 3] 3)
     = fst (sixlowpan_lowpan_sendto
          (lowpan_send 127 id (\<lambda>d f. True) \<lparr>iphc_status = LOWPAN_IPHC_DISABLE, tag = 0\<rparr>)
          0 (replicate 3000 0) 3000)
   \<and> fst (lowpan_send 127 id (\<lambda>d f. True)
          \<lparr>iphc_status = LOWPAN_IPHC_DISABLE, tag = 0\<rparr> 0 [1, 2, 3] 3)
     = Success
   \<and> fst (lowpan_send 127 id (\<lambda>d f. True)
          \<lparr>iphc_status = LOWPAN_IPHC_DISABLE, tag = 0\<rparr> 0 (replicate 3000 0) 3000)
     = Failure OversizedDatagram
   \<and> fst (lowpan_send 127 id (\<lambda>d f. False)
          \<lparr>iphc_status = LOWPAN_IPHC_DISABLE, tag = 0\<rparr> 0 [1, 2, 3] 3)
     = Failure TransceiverFailure"
  by (simp add: lowpan_send_def fragment_def lowpan_encapsulate_def max_datagram_size)

section \<open>Duplicate fragments\<close>

lemma take_drop_range: "take n (drop off xs) @ drop (off + n) xs = drop off xs"
proof -
  have "drop (off + n) xs = drop n (drop off xs)"
    by (simp add: add.commute)
  then show ?thesis by (simp only: append_take_drop_id)
qed

lemma mark_received_same:
  assumes "take n (drop off bm) = replicate n True"
  shows "mark_received off n bm = bm"
proof -
  have "take off bm @ take n (drop off bm) @ drop (off + n) bm = bm"
    by (simp only: take_drop_range append_take_drop_id)
  with assms show ?thesis by (simp add: mark_received_def)
qed

lemma write_bytes_same:
  assumes "take (length bs) (drop off store) = bs"
  shows "write_bytes off bs store = store"
proof -
  have "take off store @ take (length bs) (drop off store) @ drop (off + length bs) store = store"
    by (simp only: take_drop_range append_take_drop_id)
  with assms show ?thesis by (simp add: write_bytes_def)
qed

lemma slot_write_received_range:
  assumes "filling_wf buf" and "range_received buf off (length bs)"
  shows "slot_write now buf off bs =
           (Filling (buf\<lparr>rb_payload := write_bytes off bs (rb_payload buf), rb_updated := now\<rparr>),
            Stored)"
proof -
  from assms(2) have inb: "off + length bs \<le> rb_size buf"
    and same: "mark_received off (length bs) (rb_received buf) = rb_received buf"
    by (simp_all add: range_received_def mark_received_same)
  from assms(1) have nc: "\<not> rb_complete buf"
    by (simp add: filling_wf_def)
  have cnt: "rb_complete (buf\<lparr>rb_payload := p, rb_updated := t\<rparr>) = rb_complete buf" for p t
    by (simp add: rb_complete_def received_count_def)
  show ?thesis
    using inb nc by (simp add: slot_write_def same cnt)
qed

lemma slot_write_same_bytes:
  assumes "filling_wf buf" and "range_received buf off (length bs)"
    and "take (length bs) (drop off (rb_payload buf)) = bs"
  shows "slot_write now buf off bs = (Filling (buf\<lparr>rb_updated := now\<rparr>), Stored)"
  using slot_write_received_range [OF assms(1,2), of now] assms(3)
  by (simp add: write_bytes_same)

text \<open>
  Claim C8. A slot is filling, and a fragment arrives whose byte range lies in the
  datagram and has been received into the slot already. The slot stays filling: its
  received-set is the one it had and so is the number of bytes counted toward
  completion; the bytes of the fragment are written over the range, and when they are
  the bytes that the slot holds there, nothing of the slot changes but the time of its
  last update.
\<close>

theorem duplicate_fragment_leaves_received_set:
  assumes "filling_wf buf" and "range_received buf off (length bs)"
  shows "slot_write now buf off bs =
           (Filling (buf\<lparr>rb_payload := write_bytes off bs (rb_payload buf), rb_updated := now\<rparr>),
            Stored)
       \<and> rb_received (buf\<lparr>rb_payload := write_bytes off bs (rb_payload buf), rb_updated := now\<rparr>)
           = rb_received buf
       \<and> received_count (buf\<lparr>rb_payload := write_bytes off bs (rb_payload buf), rb_updated := now\<rparr>)
           = received_count buf
       \<and> (take (length bs) (drop off (rb_payload buf)) = bs \<longrightarrow>
            slot_write now buf off bs = (Filling (buf\<lparr>rb_updated := now\<rparr>), Stored))"
  using slot_write_received_range [OF assms, of now] slot_write_same_bytes [OF assms, of now]
  by (simp add: received_count_def)

theorem duplicate_fragment_leaves_received_set_witness:
  "filling_wf \<lparr>rb_source = 1, rb_tag = 7, rb_size = 4, rb_received = [True, True, False, False],
       rb_payload = [10, 20, 0, 0], rb_created = 1, rb_updated = 1\<rparr>
   \<and> range_received \<lparr>rb_source = 1, rb_tag = 7, rb_size = 4, rb_received = [True, True, False, False],
       rb_payload = [10, 20, 0, 0], rb_created = 1, rb_updated = 1\<rparr> 0 (length [10, 20 :: uint8_t])
   \<and> slot_write 5 \<lparr>rb_source = 1, rb_tag = 7, rb_size = 4, rb_received = [True, True, False, False],
       rb_payload = [10, 20, 0, 0], rb_created = 1, rb_updated = 1\<rparr> 0 [10, 20]
     = (Filling \<lparr>rb_source = 1, rb_tag = 7, rb_size = 4, rb_received = [True, True, False, False],
       rb_payload = [10, 20, 0, 0], rb_created = 1, rb_updated = 5\<rparr>, Stored)"
proof -
  let ?b = "\<lparr>rb_source = 1, rb_tag = 7, rb_size = 4, rb_received = [True, True, False, False],
       rb_payload = [10, 20, 0, 0 :: uint8_t], rb_created = 1, rb_updated = 1\<rparr>"
  have wf: "filling_wf ?b"
    by (simp add: filling_wf_def rb_complete_def received_count_def)
  have rr: "range_received ?b 0 (length [10, 20 :: uint8_t])"
    by (simp add: range_received_def numeral_2_eq_2)
  show ?thesis
    using wf rr duplicate_fragment_leaves_received_set [OF wf rr, of 5] by (simp add: write_bytes_def numeral_2_eq_2)
qed

text \<open>
  The hypothesis is what a first submission leaves: a fragment that a slot took and
  stayed filling is, submitted again, a duplicate in the sense above.
\<close>

lemma slot_write_Filling:
  assumes "slot_write t buf off bs = (Filling b1, r)"
  shows "off + length bs \<le> rb_size buf \<and> \<not> rb_complete b1
       \<and> b1 = buf\<lparr>rb_received := mark_received off (length bs) (rb_received buf),
                   rb_payload := write_bytes off bs (rb_payload buf), rb_updated := t\<rparr>"
  using assms by (auto simp: slot_write_def split: if_splits)

lemma length_mark_received:
  "off + n \<le> length bm \<Longrightarrow> length (mark_received off n bm) = length bm"
  by (simp add: mark_received_def)

lemma length_write_bytes:
  "off + length bs \<le> length store \<Longrightarrow> length (write_bytes off bs store) = length store"
  by (simp add: write_bytes_def)

lemma range_mark_received:
  "off \<le> length bm \<Longrightarrow> take n (drop off (mark_received off n bm)) = replicate n True"
  by (simp add: mark_received_def)

lemma range_write_bytes:
  "off \<le> length store \<Longrightarrow> take (length bs) (drop off (write_bytes off bs store)) = bs"
  by (simp add: write_bytes_def)

lemma resubmitted_fragment:
  assumes len: "length (rb_received buf) = rb_size buf"
    and room: "rb_size buf \<le> length (rb_payload buf)"
    and first: "slot_write t1 buf off bs = (Filling b1, r)"
  shows "slot_write t2 b1 off bs = (Filling (b1\<lparr>rb_updated := t2\<rparr>), Stored)"
proof -
  note f = slot_write_Filling [OF first]
  from f have inb: "off + length bs \<le> rb_size buf"
    by (rule conjunct1)
  from f have nc: "\<not> rb_complete b1"
    by (rule conjunct2 [THEN conjunct1])
  from f have b1: "b1 = buf\<lparr>rb_received := mark_received off (length bs) (rb_received buf),
                   rb_payload := write_bytes off bs (rb_payload buf), rb_updated := t1\<rparr>"
    by (rule conjunct2 [THEN conjunct2])
  have "length (rb_received b1) = rb_size b1 \<and> rb_size b1 \<le> length (rb_payload b1)"
    using inb len room by (simp add: b1 length_mark_received length_write_bytes)
  with nc have wf: "filling_wf b1"
    by (simp add: filling_wf_def)
  have rr: "range_received b1 off (length bs)"
    using inb len by (simp add: range_received_def b1 range_mark_received)
  have same: "take (length bs) (drop off (rb_payload b1)) = bs"
    using inb room by (simp add: b1 range_write_bytes)
  show ?thesis
    by (rule slot_write_same_bytes [OF wf rr same])
qed

section \<open>Exhaustion of the slot pool\<close>

text \<open>
  \<open>lru_index\<close> finds a filling slot, and none of the filling slots was updated before
  it. A first fragment that starts a reassembly at a full pool takes the place of that
  slot; while no more first fragments have arrived than the pool has slots, nothing is
  evicted.
\<close>

lemma lru_index_sound:
  "lru_index ss = Some (i, t) \<Longrightarrow> i < length ss \<and> (\<exists>b. ss ! i = Filling b \<and> rb_updated b = t)"
proof (induction ss arbitrary: i t rule: lru_index.induct)
  case 1
  then show ?case by simp
next
  case (2 ss)
  then show ?case by (auto split: prod.splits)
next
  case (3 b ss)
  then show ?case by (auto split: option.splits prod.splits if_splits)
qed

lemma lru_index_None: "(lru_index ss = None) = (\<forall>s\<in>set ss. is_empty s)"
  by (induction ss rule: lru_index.induct) (auto split: option.splits prod.splits)

lemma lru_index_least:
  "lru_index ss = Some (i, t) \<Longrightarrow> Filling b \<in> set ss \<Longrightarrow> t \<le> rb_updated b"
proof (induction ss arbitrary: i t rule: lru_index.induct)
  case 1
  then show ?case by simp
next
  case (2 ss)
  then show ?case by (auto split: prod.splits)
next
  case (3 b' ss)
  show ?case
  proof (cases "lru_index ss")
    case None
    then have "Filling b \<notin> set ss" by (auto simp: lru_index_None)
    with 3 None show ?thesis by auto
  next
    case (Some p)
    obtain j u where p: "p = (j, u)" by (cases p)
    show ?thesis
    proof (cases "b = b'")
      case True
      with 3(2) Some p show ?thesis by (auto split: if_splits)
    next
      case False
      with 3(3) have "Filling b \<in> set ss" by simp
      with 3(1) Some p have "u \<le> rb_updated b" by simp
      with 3(2) Some p show ?thesis by (auto split: if_splits)
    qed
  qed
qed

lemma find_index_None: "(find_index P xs = None) = (\<forall>x\<in>set xs. \<not> P x)"
  by (induction xs) auto

lemma find_index_Some: "find_index P xs = Some i \<Longrightarrow> i < length xs \<and> P (xs ! i)"
proof (induction xs arbitrary: i)
  case Nil
  then show ?case by simp
next
  case (Cons x xs)
  then show ?case by (auto split: if_splits)
qed

lemma start_slot_explicit:
  assumes "starts_reassembly fr"
  shows "start_slot now fr =
     (Filling \<lparr>rb_source = fr_source fr, rb_tag = fr_tag fr, rb_size = fr_size fr,
         rb_received = replicate (length (fr_payload fr)) True
                       @ replicate (fr_size fr - length (fr_payload fr)) False,
         rb_payload = fr_payload fr
                       @ replicate (MAX_DATAGRAM_SIZE - length (fr_payload fr)) 0,
         rb_created = now, rb_updated = now\<rparr>,
      Stored)"
  using assms
  by (simp add: starts_reassembly_def start_slot_def slot_write_def new_buffer_def
      rb_complete_def received_count_def mark_received_def write_bytes_def)

lemma evict_step:
  assumes ne: "slots pool \<noteq> []"
    and full: "\<forall>s\<in>set (slots pool). \<not> is_empty s"
    and fresh: "\<forall>s\<in>set (slots pool). \<not> slot_matches (fr_source fr) (fr_tag fr) s"
    and fr: "starts_reassembly fr"
  shows "\<exists>i b. lru_index (slots pool) = Some (i, rb_updated b) \<and> i < length (slots pool)
           \<and> slots pool ! i = Filling b
           \<and> (\<forall>b'. Filling b' \<in> set (slots pool) \<longrightarrow> rb_updated b \<le> rb_updated b')
           \<and> pool_rx now fr pool =
               (pool\<lparr>slots := (slots pool)[i := fst (start_slot now fr)],
                     evictions := evictions pool + 1\<rparr>, Some Stored)"
proof -
  from ne full have "lru_index (slots pool) \<noteq> None"
    by (cases "slots pool") (auto simp: lru_index_None)
  then obtain i t where lru: "lru_index (slots pool) = Some (i, t)"
    by auto
  from lru_index_sound [OF lru] obtain b where i: "i < length (slots pool)"
    and b: "slots pool ! i = Filling b" "rb_updated b = t"
    by auto
  have least: "\<forall>b'. Filling b' \<in> set (slots pool) \<longrightarrow> rb_updated b \<le> rb_updated b'"
    using lru_index_least [OF lru] b(2) by simp
  have nomatch: "find_index (slot_matches (fr_source fr) (fr_tag fr)) (slots pool) = None"
    using fresh by (simp add: find_index_None)
  have nofree: "find_index is_empty (slots pool) = None"
    using full by (simp add: find_index_None)
  from fr have ok: "fr_first fr" "\<not> fr_size fr < length (fr_payload fr)"
    by (simp_all add: starts_reassembly_def)
  have "pool_rx now fr pool =
               (pool\<lparr>slots := (slots pool)[i := fst (start_slot now fr)],
                     evictions := evictions pool + 1\<rparr>, Some Stored)"
    by (simp add: pool_rx_def nomatch nofree ok lru put_slot_def start_slot_explicit [OF fr])
  with lru i b least show ?thesis by blast
qed

lemma filling_count_update_le:
  "filling_count (ss[i := s]) \<le> Suc (filling_count ss)"
  by (induction ss arbitrary: i) (auto simp: filling_count_def split: nat.splits)

lemma filling_count_update_filling:
  "i < length ss \<Longrightarrow> \<not> is_empty (ss ! i) \<Longrightarrow> filling_count (ss[i := s]) \<le> filling_count ss"
proof (induction ss arbitrary: i)
  case Nil
  then show ?case by simp
next
  case (Cons a ss)
  show ?case
  proof (cases i)
    case 0
    with Cons.prems show ?thesis by (simp add: filling_count_def)
  next
    case (Suc j)
    with Cons.prems Cons.IH [of j] show ?thesis by (simp add: filling_count_def)
  qed
qed

lemma filling_count_full:
  "find_index is_empty ss = None \<Longrightarrow> filling_count ss = length ss"
  by (simp add: find_index_None filling_count_def)

lemma pool_rx_length: "length (slots (fst (pool_rx now fr pool))) = length (slots pool)"
  by (simp add: pool_rx_def put_slot_def split: option.splits slot.splits prod.splits)

lemma pool_run_length: "length (slots (pool_run arrs pool)) = length (slots pool)"
  by (induction arrs arbitrary: pool) (auto simp: pool_rx_length)

lemma pool_rx_evictions:
  assumes "\<not> fr_first fr \<or> find_index is_empty (slots pool) \<noteq> None"
  shows "evictions (fst (pool_rx now fr pool)) = evictions pool"
  using assms
  by (auto simp: pool_rx_def put_slot_def split: option.splits slot.splits prod.splits)

lemma pool_rx_filling_count:
  "filling_count (slots (fst (pool_rx now fr pool)))
     \<le> filling_count (slots pool) + (if fr_first fr then 1 else 0)"
proof (cases "find_index (slot_matches (fr_source fr) (fr_tag fr)) (slots pool)")
  case (Some i)
  from find_index_Some [OF Some] have i: "i < length (slots pool)"
    by simp
  show ?thesis
  proof (cases "slots pool ! i")
    case Empty
    with Some show ?thesis by (simp add: pool_rx_def)
  next
    case (Filling b)
    with i have "filling_count ((slots pool)[i := s]) \<le> filling_count (slots pool)" for s
      by (simp add: filling_count_update_filling)
    with Some Filling show ?thesis
      by (simp add: pool_rx_def put_slot_def le_SucI)
  qed
next
  case None
  show ?thesis
  proof (cases "\<not> fr_first fr \<or> fr_size fr < length (fr_payload fr)")
    case True
    with None show ?thesis by (auto simp: pool_rx_def)
  next
    case False
    then have first: "fr_first fr" by simp
    show ?thesis
    proof (cases "find_index is_empty (slots pool)")
      case (Some i)
      with None False show ?thesis
        using filling_count_update_le [of "slots pool" i]
        by (simp add: pool_rx_def put_slot_def)
    next
      case nofree: None
      show ?thesis
      proof (cases "lru_index (slots pool)")
        case None
        with \<open>find_index (slot_matches (fr_source fr) (fr_tag fr)) (slots pool) = None\<close>
          False nofree show ?thesis
          by (simp add: pool_rx_def)
      next
        case (Some p)
        obtain i t where p: "p = (i, t)" by (cases p)
        with \<open>find_index (slot_matches (fr_source fr) (fr_tag fr)) (slots pool) = None\<close>
          False nofree Some show ?thesis
          using filling_count_update_le [of "slots pool" i]
          by (simp add: pool_rx_def put_slot_def)
      qed
    qed
  qed
qed

lemma pool_run_no_eviction:
  assumes "evictions pool = 0"
    and "filling_count (slots pool) + length (filter (\<lambda>a. fr_first (snd a)) arrs)
           \<le> length (slots pool)"
  shows "evictions (pool_run arrs pool) = 0"
  using assms
proof (induction arrs arbitrary: pool)
  case Nil
  then show ?case by simp
next
  case (Cons a arrs)
  obtain t fr where a: "a = (t, fr)" by (cases a)
  have free: "\<not> fr_first fr \<or> find_index is_empty (slots pool) \<noteq> None"
  proof (cases "fr_first fr")
    case True
    with Cons.prems(2) a have "filling_count (slots pool) < length (slots pool)"
      by simp
    then show ?thesis
      using filling_count_full [of "slots pool"] by auto
  next
    case False
    then show ?thesis by simp
  qed
  have ev: "evictions (fst (pool_rx t fr pool)) = 0"
    using pool_rx_evictions [OF free] Cons.prems(1) by simp
  have "filling_count (slots (fst (pool_rx t fr pool)))
          + length (filter (\<lambda>a. fr_first (snd a)) arrs)
        \<le> length (slots (fst (pool_rx t fr pool)))"
    using pool_rx_filling_count [of t fr pool] Cons.prems(2) a
    by (simp add: pool_rx_length split: if_splits)
  with ev Cons.IH a show ?case by simp
qed

lemma pool_run_append: "pool_run (xs @ ys) pool = pool_run ys (pool_run xs pool)"
  by (induction xs arbitrary: pool) auto

lemma malformed_first_fragment_dropped:
  assumes "\<forall>s\<in>set (slots pool). \<not> slot_matches (fr_source fr) (fr_tag fr) s"
    and "fr_size fr < length (fr_payload fr)"
  shows "pool_rx now fr pool = (pool, None)"
proof -
  have "find_index (slot_matches (fr_source fr) (fr_tag fr)) (slots pool) = None"
    using assms(1) by (simp add: find_index_None)
  then show ?thesis
    using assms(2) by (simp add: pool_rx_def)
qed

text \<open>
  Claim C9. The pool has \<open>N\<close> slots. \<open>N\<close> reassemblies have started in it (no more
  than \<open>N\<close> first fragments have arrived, with whatever other fragments between
  them) and all are in progress: every slot is filling. Nothing has been evicted. Now
  the reassembly \<open>N + 1\<close> starts, with a key that none of the slots has. Exactly one
  slot is evicted, and it is the least-recently-updated one: no filling slot was
  updated before it. Its place is taken by the new reassembly, which has the key and
  the total size of its first fragment, the bytes of that fragment marked received and
  stored from offset 0 on; every other slot holds what it held before: key, total
  size, received bytes and payload.
\<close>

theorem pool_exhaustion_evicts_lru:
  assumes starts: "length (filter (\<lambda>a. fr_first (snd a)) arrs) \<le> N"
    and n: "0 < N"
    and full: "\<forall>s\<in>set (slots (pool_run arrs (pool_init N))). \<not> is_empty s"
    and fresh: "\<forall>s\<in>set (slots (pool_run arrs (pool_init N))).
                  \<not> slot_matches (fr_source fr) (fr_tag fr) s"
    and fr: "starts_reassembly fr"
  shows "evictions (pool_run arrs (pool_init N)) = 0
       \<and> length (slots (pool_run arrs (pool_init N))) = N
       \<and> (\<exists>i b. i < N \<and> slots (pool_run arrs (pool_init N)) ! i = Filling b
            \<and> (\<forall>b'. Filling b' \<in> set (slots (pool_run arrs (pool_init N)))
                   \<longrightarrow> rb_updated b \<le> rb_updated b')
            \<and> pool_run (arrs @ [(now, fr)]) (pool_init N) =
                \<lparr>slots = (slots (pool_run arrs (pool_init N)))
                   [i := Filling
                      \<lparr>rb_source = fr_source fr, rb_tag = fr_tag fr, rb_size = fr_size fr,
                       rb_received = replicate (length (fr_payload fr)) True
                          @ replicate (fr_size fr - length (fr_payload fr)) False,
                       rb_payload = fr_payload fr
                          @ replicate (MAX_DATAGRAM_SIZE - length (fr_payload fr)) 0,
                       rb_created = now, rb_updated = now\<rparr>],
                 evictions = 1\<rparr>)"
proof -
  let ?pool = "pool_run arrs (pool_init N)"
  have len: "length (slots ?pool) = N"
    by (simp add: pool_run_length pool_init_def)
  have ev: "evictions ?pool = 0"
    by (rule pool_run_no_eviction) (use starts in \<open>simp_all add: pool_init_def filling_count_def\<close>)
  from n len have ne: "slots ?pool \<noteq> []"
    by auto
  from evict_step [OF ne full fresh fr, of now] obtain i b
    where i: "i < length (slots ?pool)" and b: "slots ?pool ! i = Filling b"
      and least: "\<forall>b'. Filling b' \<in> set (slots ?pool) \<longrightarrow> rb_updated b \<le> rb_updated b'"
      and rx: "pool_rx now fr ?pool =
               (?pool\<lparr>slots := (slots ?pool)[i := fst (start_slot now fr)],
                     evictions := evictions ?pool + 1\<rparr>, Some Stored)"
    by blast
  have "pool_run (arrs @ [(now, fr)]) (pool_init N) = fst (pool_rx now fr ?pool)"
    by (simp add: pool_run_append)
  also have "\<dots> = ?pool\<lparr>slots := (slots ?pool)[i := fst (start_slot now fr)],
                     evictions := evictions ?pool + 1\<rparr>"
    by (simp only: rx fst_conv)
  also have "\<dots> = \<lparr>slots = (slots ?pool)[i := fst (start_slot now fr)], evictions = 1\<rparr>"
    by (simp add: ev)
  finally have run: "pool_run (arrs @ [(now, fr)]) (pool_init N)
      = \<lparr>slots = (slots ?pool)[i := fst (start_slot now fr)], evictions = 1\<rparr>" .
  show ?thesis
    using ev len i b least run by (auto simp: start_slot_explicit [OF fr])
qed

text \<open>
  Two slots; the reassembly of source 1 starts at time 1, that of source 2 at time 2,
  a subsequent fragment of source 1 arrives at time 3, and the reassembly of source 3
  starts at time 4: the slot of source 2 is the one evicted.
\<close>

theorem pool_exhaustion_evicts_lru_witness:
  "pool_run
     [(1, \<lparr>fr_source = 1, fr_tag = 0, fr_size = 24, fr_first = True, fr_offset = 0,
            fr_payload = [1, 2, 3, 4, 5, 6, 7, 8]\<rparr>),
      (2, \<lparr>fr_source = 2, fr_tag = 0, fr_size = 24, fr_first = True, fr_offset = 0,
            fr_payload = [1, 2, 3, 4, 5, 6, 7, 8]\<rparr>),
      (3, \<lparr>fr_source = 1, fr_tag = 0, fr_size = 24, fr_first = False, fr_offset = 8,
            fr_payload = [9, 10, 11, 12, 13, 14, 15, 16]\<rparr>)]
     (pool_init 2)
   = \<lparr>slots =
        [Filling \<lparr>rb_source = 1, rb_tag = 0, rb_size = 24,
            rb_received = [True, True, True, True, True, True, True, True, True, True, True, True, True, True, True, True] @ replicate 8 False,
            rb_payload = [1, 2, 3, 4, 5, 6, 7, 8, 9, 10, 11, 12, 13, 14, 15, 16] @ replicate 2031 0,
            rb_created = 1, rb_updated = 3\<rparr>,
         Filling \<lparr>rb_source = 2, rb_tag = 0, rb_size = 24,
            rb_received = [True, True, True, True, True, True, True, True] @ replicate 16 False,
            rb_payload = [1, 2, 3, 4, 5, 6, 7, 8] @ replicate 2039 0,
            rb_created = 2, rb_updated = 2\<rparr>],
      evictions = 0\<rparr>
   \<and> starts_reassembly
        \<lparr>fr_source = 3, fr_tag = 0, fr_size = 24, fr_first = True, fr_offset = 0,
            fr_payload = [1, 2, 3, 4, 5, 6, 7, 8]\<rparr>
   \<and> pool_run
     ([(1, \<lparr>fr_source = 1, fr_tag = 0, fr_size = 24, fr_first = True, fr_offset = 0,
            fr_payload = [1, 2, 3, 4, 5, 6, 7, 8]\<rparr>),
      (2, \<lparr>fr_source = 2, fr_tag = 0, fr_size = 24, fr_first = True, fr_offset = 0,
            fr_payload = [1, 2, 3, 4, 5, 6, 7, 8]\<rparr>),
      (3, \<lparr>fr_source = 1, fr_tag = 0, fr_size = 24, fr_first = False, fr_offset = 8,
            fr_payload = [9, 10, 11, 12, 13, 14, 15, 16]\<rparr>)]
      @ [(4, \<lparr>fr_source = 3, fr_tag = 0, fr_size = 24, fr_first = True, fr_offset = 0,
            fr_payload = [1, 2, 3, 4, 5, 6, 7, 8]\<rparr>)])
     (pool_init 2)
   = \<lparr>slots =
        [Filling \<lparr>rb_source = 1, rb_tag = 0, rb_size = 24,
            rb_received = [True, True, True, True, True, True, True, True, True, True, True, True, True, True, True, True] @ replicate 8 False,
            rb_payload = [1, 2, 3, 4, 5, 6, 7, 8, 9, 10, 11, 12, 13, 14, 15, 16] @ replicate 2031 0,
            rb_created = 1, rb_updated = 3\<rparr>,
         Filling \<lparr>rb_source = 3, rb_tag = 0, rb_size = 24,
            rb_received = [True, True, True, True, True, True, True, True] @ replicate 16 False,
            rb_payload = [1, 2, 3, 4, 5, 6, 7, 8] @ replicate 2039 0,
            rb_created = 4, rb_updated = 4\<rparr>],
      evictions = 1\<rparr>"
proof -
  let ?A = "[(1, \<lparr>fr_source = 1, fr_tag = 0, fr_size = 24, fr_first = True, fr_offset = 0,
            fr_payload = [1, 2, 3, 4, 5, 6, 7, 8]\<rparr>),
      (2, \<lparr>fr_source = 2, fr_tag = 0, fr_size = 24, fr_first = True, fr_offset = 0,
            fr_payload = [1, 2, 3, 4, 5, 6, 7, 8]\<rparr>),
      (3, \<lparr>fr_source = 1, fr_tag = 0, fr_size = 24, fr_first = False, fr_offset = 8,
            fr_payload = [9, 10, 11, 12, 13, 14, 15, 16]\<rparr>)]"
  let ?f3 = "\<lparr>fr_source = 3, fr_tag = 0, fr_size = 24, fr_first = True, fr_offset = 0,
            fr_payload = [1, 2, 3, 4, 5, 6, 7, 8]\<rparr>"
  let ?B1 = "\<lparr>rb_source = 1, rb_tag = 0, rb_size = 24,
            rb_received = [True, True, True, True, True, True, True, True, True, True, True, True, True, True, True, True] @ replicate 8 False,
            rb_payload = [1, 2, 3, 4, 5, 6, 7, 8, 9, 10, 11, 12, 13, 14, 15, 16] @ replicate 2031 0,
            rb_created = 1, rb_updated = 3\<rparr>"
  let ?B2 = "\<lparr>rb_source = 2, rb_tag = 0, rb_size = 24,
            rb_received = [True, True, True, True, True, True, True, True] @ replicate 16 False,
            rb_payload = [1, 2, 3, 4, 5, 6, 7, 8] @ replicate 2039 0,
            rb_created = 2, rb_updated = 2\<rparr>"
  let ?B3 = "\<lparr>rb_source = 3, rb_tag = 0, rb_size = 24,
            rb_received = [True, True, True, True, True, True, True, True] @ replicate 16 False,
            rb_payload = [1, 2, 3, 4, 5, 6, 7, 8] @ replicate 2039 0,
            rb_created = 4, rb_updated = 4\<rparr>"
  have P: "pool_run ?A (pool_init 2) = \<lparr>slots = [Filling ?B1, Filling ?B2], evictions = 0\<rparr>"
    by (simp add: pool_init_def pool_rx_def put_slot_def start_slot_def slot_write_def
        new_buffer_def rb_complete_def received_count_def mark_received_def write_bytes_def
        max_datagram_size numeral_2_eq_2)
  have st: "length (filter (\<lambda>a. fr_first (snd a)) ?A) \<le> 2"
    by simp
  have n: "(0::nat) < 2"
    by simp
  have full: "\<forall>s\<in>set (slots (pool_run ?A (pool_init 2))). \<not> is_empty s"
    unfolding P by simp
  have fresh: "\<forall>s\<in>set (slots (pool_run ?A (pool_init 2))).
                 \<not> slot_matches (fr_source ?f3) (fr_tag ?f3) s"
    unfolding P by simp
  have fr: "starts_reassembly ?f3"
    by (simp add: starts_reassembly_def max_datagram_size)
  from pool_exhaustion_evicts_lru [OF st n full fresh fr, of 4, unfolded P]
  obtain i b where i: "i < 2" and b: "[Filling ?B1, Filling ?B2] ! i = Filling b"
    and least: "\<forall>b'. Filling b' \<in> set [Filling ?B1, Filling ?B2] \<longrightarrow> rb_updated b \<le> rb_updated b'"
    and run: "pool_run (?A @ [(4, ?f3)]) (pool_init 2)
        = \<lparr>slots = [Filling ?B1, Filling ?B2]
             [i := Filling
                \<lparr>rb_source = fr_source ?f3, rb_tag = fr_tag ?f3, rb_size = fr_size ?f3,
                 rb_received = replicate (length (fr_payload ?f3)) True
                    @ replicate (fr_size ?f3 - length (fr_payload ?f3)) False,
                 rb_payload = fr_payload ?f3
                    @ replicate (MAX_DATAGRAM_SIZE - length (fr_payload ?f3)) 0,
                 rb_created = 4, rb_updated = 4\<rparr>],
           evictions = 1\<rparr>"
    by (auto simp: reassembly_pool.defs)
  from least have "rb_updated b \<le> 2"
    by simp
  with i b have "i = 1"
    by (cases i) auto
  with run have "pool_run (?A @ [(4, ?f3)]) (pool_init 2)
      = \<lparr>slots = [Filling ?B1, Filling ?B3], evictions = 1\<rparr>"
    by (simp add: max_datagram_size numeral_eq_Suc)
  with P fr show ?thesis
    by (intro conjI)
qed

section \<open>The invariant of the pool\<close>

text \<open>
  The buffers of filling slots are as \<open>filling_wf\<close> says in every pool that the arrival
  of fragments makes of the initial one, the size field of a fragment being at most
  the largest datagram size.
\<close>

lemma list_all_update: "list_all P xs \<Longrightarrow> P y \<Longrightarrow> list_all P (xs[i := y])"
  by (induction xs arbitrary: i) (auto split: nat.splits)

lemma slot_write_wf:
  assumes "length (rb_received buf) = rb_size buf" and "rb_size buf \<le> length (rb_payload buf)"
  shows "slot_wf (fst (slot_write now buf off bs))"
  using assms
  by (simp add: slot_write_def filling_wf_def length_mark_received length_write_bytes)

lemma start_slot_wf:
  assumes "fr_size fr \<le> MAX_DATAGRAM_SIZE"
  shows "slot_wf (fst (start_slot now fr))"
  unfolding start_slot_def
  by (rule slot_write_wf) (use assms in \<open>simp_all add: new_buffer_def\<close>)

lemma put_slot_wf:
  "pool_wf pool \<Longrightarrow> slot_wf (fst sr) \<Longrightarrow> pool_wf (fst (put_slot i sr pool))"
  by (simp add: pool_wf_def put_slot_def list_all_update)

lemma pool_rx_wf:
  assumes wf: "pool_wf pool" and sz: "fr_size fr \<le> MAX_DATAGRAM_SIZE"
  shows "pool_wf (fst (pool_rx now fr pool))"
proof (cases "find_index (slot_matches (fr_source fr) (fr_tag fr)) (slots pool)")
  case (Some i)
  then have i: "i < length (slots pool)"
    by (simp add: find_index_Some)
  show ?thesis
  proof (cases "slots pool ! i")
    case Empty
    with Some wf show ?thesis by (simp add: pool_rx_def)
  next
    case (Filling b)
    from wf i Filling have "filling_wf b"
      by (auto simp: pool_wf_def list_all_length)
    then have "slot_wf (fst (slot_write now b (fr_offset fr) (fr_payload fr)))"
      by (simp add: slot_write_wf filling_wf_def)
    with Some Filling wf show ?thesis
      by (simp add: pool_rx_def put_slot_wf)
  qed
next
  case None
  have st: "slot_wf (fst (start_slot now fr))"
    by (rule start_slot_wf [OF sz])
  have ev: "pool_wf (pool\<lparr>evictions := evictions pool + 1\<rparr>)"
    using wf by (simp add: pool_wf_def)
  show ?thesis
    using None wf st ev
    by (auto simp: pool_rx_def put_slot_wf split: option.splits prod.splits)
qed

lemma pool_init_wf: "pool_wf (pool_init n)"
  by (simp add: pool_init_def pool_wf_def list_all_iff)

lemma pool_run_wf:
  assumes "pool_wf pool" and "\<forall>a\<in>set arrs. fr_size (snd a) \<le> MAX_DATAGRAM_SIZE"
  shows "pool_wf (pool_run arrs pool)"
  using assms
proof (induction arrs arbitrary: pool)
  case Nil
  then show ?case by simp
next
  case (Cons a arrs)
  obtain t fr where a: "a = (t, fr)" by (cases a)
  with Cons.prems have "pool_wf (fst (pool_rx t fr pool))"
    by (simp add: pool_rx_wf)
  with Cons a show ?case by simp
qed

end
